theory Spec2Isabelle
  imports Main
begin

section \<open>Boxing class tracker: the account service of server.js\<close>

text \<open>
  The server has two routes, \<^verbatim>\<open>POST /api/login\<close> and \<^verbatim>\<open>POST /api/register\<close>, over one
  Mongoose model \<^verbatim>\<open>User\<close>. Both read string fields out of the JSON body, test them,
  and talk to the \<^verbatim>\<open>users\<close> collection. The embedding below follows server.js
  statement by statement.

  Strings are lists of \<^typ>\<open>char\<close> (bytes; a non-ASCII code point is several bytes above 127,
  none of which any of the character classes below accepts, as in JavaScript, where
  \<^verbatim>\<open>\w\<close> without the \<^verbatim>\<open>u\<close> and \<^verbatim>\<open>i\<close> flags is ASCII only).
\<close>

subsection \<open>Request bodies and JavaScript truthiness\<close>

text \<open>
  \<^verbatim>\<open>req.body\<close> is the parsed JSON object. The interface sends strings only, so a body is a
  finite map from field names to strings; a field that is missing reads as
  \<^verbatim>\<open>undefined\<close>, here \<open>None\<close>.
\<close>

type_synonym body = "string \<rightharpoonup> string"

text \<open>\<^verbatim>\<open>!x\<close> is true for \<^verbatim>\<open>undefined\<close> and for the empty string, false for every other string.\<close>

definition truthy :: "string option \<Rightarrow> bool" where
  "truthy v = (case v of None \<Rightarrow> False | Some x \<Rightarrow> x \<noteq> [])"

text \<open>
  The string a field reads as. The handlers use a field's value only after finding it
  truthy; \<^verbatim>\<open>undefined\<close> is given the string that ToString makes of it, as
  \<^verbatim>\<open>RegExp.prototype.test\<close> would.
\<close>

definition str :: "string option \<Rightarrow> string" where
  "str v = (case v of None \<Rightarrow> ''undefined'' | Some x \<Rightarrow> x)"

subsection \<open>Regular expressions\<close>

text \<open>
  The four patterns of the register route use character classes, concatenation, \<^verbatim>\<open>+\<close>,
  \<^verbatim>\<open>*\<close> and counted repetition, between \<^verbatim>\<open>^\<close> and \<^verbatim>\<open>$\<close> and without flags. For such a
  pattern \<^verbatim>\<open>test\<close> answers whether the whole string belongs to the pattern's language.
  The matcher consumes the string one character at a time, replacing the pattern by the
  pattern of what may follow.
\<close>

datatype regex =
    NoMatch
  | Empty
  | OneOf "char \<Rightarrow> bool"
  | Or regex regex
  | Then regex regex
  | Many regex

fun nullable :: "regex \<Rightarrow> bool" where
  "nullable NoMatch = False"
| "nullable Empty = True"
| "nullable (OneOf p) = False"
| "nullable (Or r q) = (nullable r \<or> nullable q)"
| "nullable (Then r q) = (nullable r \<and> nullable q)"
| "nullable (Many r) = True"

fun after :: "char \<Rightarrow> regex \<Rightarrow> regex" where
  "after c NoMatch = NoMatch"
| "after c Empty = NoMatch"
| "after c (OneOf p) = (if p c then Empty else NoMatch)"
| "after c (Or r q) = Or (after c r) (after c q)"
| "after c (Then r q) =
     (if nullable r then Or (Then (after c r) q) (after c q) else Then (after c r) q)"
| "after c (Many r) = Then (after c r) (Many r)"

fun matches :: "regex \<Rightarrow> string \<Rightarrow> bool" where
  "matches r [] = nullable r"
| "matches r (c # cs) = matches (after c r) cs"

text \<open>\<^verbatim>\<open>r+\<close>, \<^verbatim>\<open>r?\<close>, \<^verbatim>\<open>r{n}\<close> and \<^verbatim>\<open>r{m,n}\<close>.\<close>

definition one_or_more :: "regex \<Rightarrow> regex" where
  "one_or_more r = Then r (Many r)"

definition optional :: "regex \<Rightarrow> regex" where
  "optional r = Or r Empty"

fun exactly :: "nat \<Rightarrow> regex \<Rightarrow> regex" where
  "exactly 0 r = Empty"
| "exactly (Suc n) r = Then r (exactly n r)"

fun at_most :: "nat \<Rightarrow> regex \<Rightarrow> regex" where
  "at_most 0 r = Empty"
| "at_most (Suc n) r = optional (Then r (at_most n r))"

definition between :: "nat \<Rightarrow> nat \<Rightarrow> regex \<Rightarrow> regex" where
  "between m n r = Then (exactly m r) (at_most (n - m) r)"

text \<open>Character classes: \<^verbatim>\<open>a-z\<close> style ranges by code, and \<^verbatim>\<open>\w\<close>.\<close>

definition in_range :: "char \<Rightarrow> char \<Rightarrow> char \<Rightarrow> bool" where
  "in_range lo hi c = (of_char lo \<le> (of_char c :: nat) \<and> (of_char c :: nat) \<le> of_char hi)"

definition letter :: "char \<Rightarrow> bool" where
  "letter c = (in_range CHR ''a'' CHR ''z'' c \<or> in_range CHR ''A'' CHR ''Z'' c)"

definition digit :: "char \<Rightarrow> bool" where
  "digit c = in_range CHR ''0'' CHR ''9'' c"

definition word_char :: "char \<Rightarrow> bool" where
  "word_char c = (letter c \<or> digit c \<or> c = CHR ''_'')"

text \<open>
  \<^verbatim>\<open>[\w-\.]\<close>: a class escape cannot bound a range, so outside unicode mode the class is
  the union of \<^verbatim>\<open>\w\<close>, the hyphen and the dot. \<^verbatim>\<open>[\w-]\<close> is \<^verbatim>\<open>\w\<close> and the hyphen.
\<close>

definition local_char :: "char \<Rightarrow> bool" where
  "local_char c = (word_char c \<or> c = CHR ''-'' \<or> c = CHR ''.'')"

definition label_char :: "char \<Rightarrow> bool" where
  "label_char c = (word_char c \<or> c = CHR ''-'')"

definition name_joiner :: "char \<Rightarrow> bool" where
  "name_joiner c = (c = CHR 0x27 \<or> c = CHR ''-'')"

definition is_char :: "char \<Rightarrow> char \<Rightarrow> bool" where
  "is_char a c = (c = a)"

text \<open>\<^verbatim>\<open>/^[a-zA-Z]+$/\<close>\<close>

definition fnameRegex :: regex where
  "fnameRegex = one_or_more (OneOf letter)"

text \<open>\<^verbatim>\<open>/^[a-zA-Z]+(['-][a-zA-Z]+)*$/\<close>\<close>

definition lnameRegex :: regex where
  "lnameRegex = Then (one_or_more (OneOf letter)) (Many (Then (OneOf name_joiner) (one_or_more (OneOf letter))))"

text \<open>\<^verbatim>\<open>/^[\w-\.]+@([\w-]+\.)[\w]{2,6}$/\<close>\<close>

definition emailRegex :: regex where
  "emailRegex =
     Then (one_or_more (OneOf local_char))
       (Then (OneOf (is_char CHR ''@''))
          (Then (Then (one_or_more (OneOf label_char)) (OneOf (is_char CHR ''.'')))
             (between 2 6 (OneOf word_char))))"

text \<open>\<^verbatim>\<open>/^[0-9]{10}$/\<close>\<close>

definition phoneNumberRegex :: regex where
  "phoneNumberRegex = exactly 10 (OneOf digit)"

text \<open>\<^verbatim>\<open>regex.test(v)\<close>: the argument is converted to a string first.\<close>

definition test :: "regex \<Rightarrow> string option \<Rightarrow> bool" where
  "test r v = matches r (str v)"

subsection \<open>The user schema and the collection\<close>

record user =
  firstName :: string
  lastName :: string
  username :: string
  password :: string
  email :: string
  phone :: string

text \<open>
  The collection is the list of its documents in insertion order. The identifier the
  database adds to a document is not one of the schema's fields and is left out.

  A call on the collection either returns or throws. A lookup on this collection always
  returns; a save throws when the schema's validation fails. The handlers' \<^verbatim>\<open>catch\<close>
  branches, which answer 500, are what they do with a call that throws. Connection
  failures are outside the model: every statement below is about a collection that
  answers.
\<close>

type_synonym store = "user list"

datatype store_error = ValidationError

text \<open>\<^verbatim>\<open>User.findOne({ username: username })\<close>: the first document with that username.\<close>

definition findOne :: "string \<Rightarrow> store \<Rightarrow> store_error + user option" where
  "findOne name s = Inr (find (\<lambda>u. username u = name) s)"

text \<open>
  Every path of the schema is \<^verbatim>\<open>required: true\<close>; for a string path the validator that
  runs before saving rejects the empty string.
\<close>

definition required_paths :: "user \<Rightarrow> bool" where
  "required_paths u =
     (firstName u \<noteq> [] \<and> lastName u \<noteq> [] \<and> username u \<noteq> [] \<and> password u \<noteq> [] \<and>
      email u \<noteq> [] \<and> phone u \<noteq> [])"

text \<open>\<^verbatim>\<open>newUser.save()\<close>: validate, then insert.\<close>

definition save :: "user \<Rightarrow> store \<Rightarrow> store_error + store" where
  "save u s = (if required_paths u then Inr (s @ [u]) else Inl ValidationError)"

subsection \<open>Responses\<close>

datatype payload = Message string | Document user

record response =
  status :: nat
  json :: payload

definition reply :: "nat \<Rightarrow> payload \<Rightarrow> response" where
  "reply code p = \<lparr>status = code, json = p\<rparr>"

subsection \<open>POST /api/login\<close>

text \<open>
  The handler returns the response together with the collection as it leaves it.
  \<^verbatim>\<open>res.json(user)\<close> without a status answers 200.
\<close>

definition login :: "store \<Rightarrow> body \<Rightarrow> response \<times> store" where
  "login s b =
     (if \<not> truthy (b ''username'') \<or> \<not> truthy (b ''password'') then
        (reply 400 (Message ''Username and password are required''), s)
      else
        (case findOne (str (b ''username'')) s of
           Inl err \<Rightarrow> (reply 500 (Message ''Server error''), s)
         | Inr None \<Rightarrow> (reply 404 (Message ''User not found''), s)
         | Inr (Some u) \<Rightarrow>
             if password u = str (b ''password'') then (reply 200 (Document u), s)
             else (reply 401 (Message ''Invalid credentials''), s)))"

subsection \<open>POST /api/register\<close>

definition register :: "store \<Rightarrow> body \<Rightarrow> response \<times> store" where
  "register s b =
     (if \<not> truthy (b ''firstName'') then
        (reply 400 (Message ''First name is required''), s)
      else if \<not> test fnameRegex (b ''firstName'') then
        (reply 400 (Message ''First Name should contain only letters''), s)
      else if \<not> truthy (b ''lastName'') then
        (reply 400 (Message ''Last Name is required''), s)
      else if \<not> test lnameRegex (b ''lastName'') then
        (reply 400 (Message ''Last Name should contain only letters''), s)
      else if \<not> truthy (b ''email'') then
        (reply 400 (Message ''Email is required''), s)
      else if \<not> test emailRegex (b ''email'') then
        (reply 400 (Message ''Email format is invalid''), s)
      else if \<not> truthy (b ''phone'') then
        (reply 400 (Message ''Phone Number is required''), s)
      else if \<not> test phoneNumberRegex (b ''phone'') then
        (reply 400 (Message ''Phone Number must be 10 digits''), s)
      else if \<not> truthy (b ''username'') \<or> \<not> truthy (b ''password'') then
        (reply 400 (Message ''Username and password are required''), s)
      else
        (case findOne (str (b ''username'')) s of
           Inl err \<Rightarrow> (reply 500 (Message ''Error saving user to database''), s)
         | Inr (Some existingUser) \<Rightarrow> (reply 400 (Message ''Username already taken''), s)
         | Inr None \<Rightarrow>
             (let newUser = \<lparr>firstName = str (b ''firstName''), lastName = str (b ''lastName''),
                             username = str (b ''username''), password = str (b ''password''),
                             email = str (b ''email''), phone = str (b ''phone'')\<rparr>
              in case save newUser s of
                   Inl err \<Rightarrow> (reply 500 (Message ''Error saving user to database''), s)
                 | Inr s' \<Rightarrow> (reply 201 (Document newUser), s'))))"

subsection \<open>Sequences of requests\<close>

datatype operation = Login body | Register body

fun perform :: "operation \<Rightarrow> store \<Rightarrow> store" where
  "perform (Login b) s = snd (login s b)"
| "perform (Register b) s = snd (register s b)"

definition run :: "operation list \<Rightarrow> store \<Rightarrow> store" where
  "run ops s = fold perform ops s"

subsection \<open>The validation contract, in the specification's words\<close>

text \<open>
  The specification lists the checks of registration in a fixed order, each with its
  message; the first that fails decides the response.
\<close>

definition validation_checks :: "((body \<Rightarrow> bool) \<times> string) list" where
  "validation_checks =
     [(\<lambda>b. truthy (b ''firstName''), ''First name is required''),
      (\<lambda>b. test fnameRegex (b ''firstName''), ''First Name should contain only letters''),
      (\<lambda>b. truthy (b ''lastName''), ''Last Name is required''),
      (\<lambda>b. test lnameRegex (b ''lastName''), ''Last Name should contain only letters''),
      (\<lambda>b. truthy (b ''email''), ''Email is required''),
      (\<lambda>b. test emailRegex (b ''email''), ''Email format is invalid''),
      (\<lambda>b. truthy (b ''phone''), ''Phone Number is required''),
      (\<lambda>b. test phoneNumberRegex (b ''phone''), ''Phone Number must be 10 digits''),
      (\<lambda>b. truthy (b ''username'') \<and> truthy (b ''password''),
         ''Username and password are required'')]"

definition first_failure :: "body \<Rightarrow> string option" where
  "first_failure b = map_option snd (find (\<lambda>(ok, msg). \<not> ok b) validation_checks)"

definition passes_validation :: "body \<Rightarrow> bool" where
  "passes_validation b =
     (truthy (b ''firstName'') \<and> test fnameRegex (b ''firstName'') \<and>
      truthy (b ''lastName'') \<and> test lnameRegex (b ''lastName'') \<and>
      truthy (b ''email'') \<and> test emailRegex (b ''email'') \<and>
      truthy (b ''phone'') \<and> test phoneNumberRegex (b ''phone'') \<and>
      truthy (b ''username'') \<and> truthy (b ''password''))"

text \<open>The document a request describes.\<close>

definition document_of :: "body \<Rightarrow> user" where
  "document_of b =
     \<lparr>firstName = str (b ''firstName''), lastName = str (b ''lastName''),
      username = str (b ''username''), password = str (b ''password''),
      email = str (b ''email''), phone = str (b ''phone'')\<rparr>"

text \<open>
  A field is missing when the body does not carry it or carries the empty string: the two
  cases \<^verbatim>\<open>!x\<close> cannot tell apart.
\<close>

definition missing :: "string option \<Rightarrow> bool" where
  "missing v = (v = None \<or> v = Some [])"

text \<open>The registration and the two logins of the specification's scenario.\<close>

definition jane :: body where
  "jane = [''firstName'' \<mapsto> ''Jane'', ''lastName'' \<mapsto> ''Doe'', ''username'' \<mapsto> ''jdoe'',
           ''password'' \<mapsto> ''pw1'', ''email'' \<mapsto> ''jane@doe.com'', ''phone'' \<mapsto> ''5551234567'']"

definition jane_login :: body where
  "jane_login = [''username'' \<mapsto> ''jdoe'', ''password'' \<mapsto> ''pw1'']"

definition jane_wrong :: body where
  "jane_wrong = [''username'' \<mapsto> ''jdoe'', ''password'' \<mapsto> ''wrong'']"

text \<open>The scenario's registration with one field replaced.\<close>

definition jane_with :: "string \<Rightarrow> string \<Rightarrow> body" where
  "jane_with f v = jane(f \<mapsto> v)"

section \<open>The matcher\<close>

text \<open>What each pattern constructor accepts, read off the matcher.\<close>

lemma matches_NoMatch: "matches NoMatch w = False"
  by (induction w) auto

lemma matches_Empty: "matches Empty w = (w = [])"
  by (cases w) (auto simp: matches_NoMatch)

lemma matches_OneOf: "matches (OneOf p) w = (\<exists>c. w = [c] \<and> p c)"
  by (cases w) (auto simp: matches_NoMatch matches_Empty)

lemma matches_Or: "matches (Or r q) w = (matches r w \<or> matches q w)"
  by (induction w arbitrary: r q) auto

lemma matches_Then: "matches (Then r q) w = (\<exists>u v. w = u @ v \<and> matches r u \<and> matches q v)"
proof (induction w arbitrary: r q)
  case Nil
  then show ?case by simp
next
  case (Cons c w)
  have split: "(\<exists>u v. c # w = u @ v \<and> matches r u \<and> matches q v) =
      ((nullable r \<and> matches (after c q) w) \<or> (\<exists>u v. w = u @ v \<and> matches (after c r) u \<and> matches q v))"
    (is "?L = ?R")
  proof
    assume ?L
    then obtain u v where uv: "c # w = u @ v" "matches r u" "matches q v" by blast
    show ?R
    proof (cases u)
      case Nil
      with uv show ?thesis by auto
    next
      case (Cons a u')
      with uv have "w = u' @ v" "matches (after c r) u'" by auto
      with uv show ?thesis by blast
    qed
  next
    assume ?R
    then show ?L
    proof
      assume "nullable r \<and> matches (after c q) w"
      then have "c # w = [] @ (c # w) \<and> matches r [] \<and> matches q (c # w)" by simp
      then show ?L by blast
    next
      assume "\<exists>u v. w = u @ v \<and> matches (after c r) u \<and> matches q v"
      then obtain u v where "w = u @ v" "matches (after c r) u" "matches q v" by blast
      then have "c # w = (c # u) @ v \<and> matches r (c # u) \<and> matches q v" by simp
      then show ?L by blast
    qed
  qed
  show ?case
    unfolding split by (auto simp: matches_Or Cons.IH)
qed

lemma matches_Many_Cons:
  "matches (Many r) (c # w) = (\<exists>u v. w = u @ v \<and> matches r (c # u) \<and> matches (Many r) v)"
  by (simp add: matches_Then)

lemma matches_Then_Empty: "matches (Then Empty q) w = matches q w"
  by (simp add: matches_Then matches_Empty del: matches.simps)

lemma matches_Then_NoMatch: "matches (Then NoMatch q) w = False"
  by (simp add: matches_Then matches_NoMatch del: matches.simps)

lemma matches_Then_OneOf:
  "matches (Then (OneOf p) q) w = (case w of [] \<Rightarrow> False | c # v \<Rightarrow> p c \<and> matches q v)"
  by (cases w) (simp_all add: matches_Then_Empty matches_Then_NoMatch)

lemma matches_Many_OneOf: "matches (Many (OneOf p)) w = list_all p w"
proof (induction w)
  case Nil
  show ?case by simp
next
  case (Cons c w)
  show ?case
    by (auto simp: matches_Many_Cons matches_OneOf Cons.IH simp del: matches.simps)
qed

lemma matches_one_or_more_OneOf: "matches (one_or_more (OneOf p)) w = (w \<noteq> [] \<and> list_all p w)"
  by (cases w) (auto simp: one_or_more_def matches_Then_OneOf matches_Many_OneOf simp del: matches.simps)

lemma matches_exactly_OneOf: "matches (exactly n (OneOf p)) w = (length w = n \<and> list_all p w)"
proof (induction n arbitrary: w)
  case 0
  then show ?case by (auto simp: matches_Empty simp del: matches.simps)
next
  case (Suc n)
  show ?case
    by (cases w) (auto simp: matches_Then_OneOf Suc.IH simp del: matches.simps)
qed

lemma matches_at_most_OneOf: "matches (at_most n (OneOf p)) w = (length w \<le> n \<and> list_all p w)"
proof (induction n arbitrary: w)
  case 0
  then show ?case by (auto simp: matches_Empty simp del: matches.simps)
next
  case (Suc n)
  show ?case
    by (cases w) (auto simp: optional_def matches_Or matches_Empty matches_Then_OneOf Suc.IH simp del: matches.simps)
qed

lemma matches_between_OneOf:
  assumes "m \<le> n"
  shows "matches (between m n (OneOf p)) w = (m \<le> length w \<and> length w \<le> n \<and> list_all p w)"
proof
  assume "matches (between m n (OneOf p)) w"
  then obtain u v where "w = u @ v" "length u = m" "list_all p u" "length v \<le> n - m" "list_all p v"
    by (auto simp: between_def matches_Then matches_exactly_OneOf matches_at_most_OneOf simp del: matches.simps)
  with assms show "m \<le> length w \<and> length w \<le> n \<and> list_all p w" by auto
next
  assume h: "m \<le> length w \<and> length w \<le> n \<and> list_all p w"
  then have "w = take m w @ drop m w \<and> length (take m w) = m \<and> list_all p (take m w)
      \<and> length (drop m w) \<le> n - m \<and> list_all p (drop m w)"
    by (auto simp: list_all_iff dest: in_set_takeD in_set_dropD)
  then show "matches (between m n (OneOf p)) w"
    unfolding between_def matches_Then matches_exactly_OneOf matches_at_most_OneOf by blast
qed

lemma test_fnameRegex: "test fnameRegex (Some x) = (x \<noteq> [] \<and> list_all letter x)"
  by (simp add: test_def str_def fnameRegex_def matches_one_or_more_OneOf del: matches.simps)

lemma test_phoneNumberRegex: "test phoneNumberRegex (Some x) = (length x = 10 \<and> list_all digit x)"
  by (simp add: test_def str_def phoneNumberRegex_def matches_exactly_OneOf del: matches.simps)

lemma matches_emailRegex:
  "matches emailRegex x =
     (\<exists>l d t. x = l @ ''@'' @ d @ ''.'' @ t \<and> l \<noteq> [] \<and> list_all local_char l \<and>
        d \<noteq> [] \<and> list_all label_char d \<and> 2 \<le> length t \<and> length t \<le> 6 \<and> list_all word_char t)"
  (is "?L = ?R")
proof
  assume ?L
  then obtain l v where lv: "x = l @ v" "l \<noteq> []" "list_all local_char l"
    and v: "matches (Then (OneOf (is_char CHR ''@''))
          (Then (Then (one_or_more (OneOf label_char)) (OneOf (is_char CHR ''.'')))
             (between 2 6 (OneOf word_char)))) v"
    unfolding emailRegex_def matches_Then [of "one_or_more (OneOf local_char)"]
      matches_one_or_more_OneOf by blast
  from v obtain v' where v': "v = CHR ''@'' # v'"
    and m: "matches (Then (Then (one_or_more (OneOf label_char)) (OneOf (is_char CHR ''.'')))
             (between 2 6 (OneOf word_char))) v'"
    by (cases v) (auto simp: matches_Then_OneOf is_char_def simp del: matches.simps)
  from m obtain dd t where dt: "v' = dd @ t" "2 \<le> length t" "length t \<le> 6" "list_all word_char t"
    and dd: "matches (Then (one_or_more (OneOf label_char)) (OneOf (is_char CHR ''.''))) dd"
    unfolding matches_Then [of "Then (one_or_more (OneOf label_char)) (OneOf (is_char CHR ''.''))"]
    by (auto simp: matches_between_OneOf simp del: matches.simps)
  from dd obtain d where d: "dd = d @ ''.''" "d \<noteq> []" "list_all label_char d"
    unfolding matches_Then [of "one_or_more (OneOf label_char)"] matches_one_or_more_OneOf
      matches_OneOf is_char_def by auto
  have "x = l @ ''@'' @ d @ ''.'' @ t"
    using lv v' dt d by simp
  with lv dt d show ?R by blast
next
  assume ?R
  then obtain l d t where x: "x = l @ ''@'' @ d @ ''.'' @ t" and l: "l \<noteq> []" "list_all local_char l"
    and d: "d \<noteq> []" "list_all label_char d"
    and t: "2 \<le> length t" "length t \<le> 6" "list_all word_char t"
    by blast
  have 1: "matches (one_or_more (OneOf local_char)) l"
    using l by (simp add: matches_one_or_more_OneOf del: matches.simps)
  have 2: "matches (between 2 6 (OneOf word_char)) t"
    using t by (simp add: matches_between_OneOf del: matches.simps)
  have 3: "matches (Then (one_or_more (OneOf label_char)) (OneOf (is_char CHR ''.''))) (d @ ''.'')"
    unfolding matches_Then [of "one_or_more (OneOf label_char)"] matches_one_or_more_OneOf
      matches_OneOf is_char_def using d by blast
  have 4: "matches (Then (Then (one_or_more (OneOf label_char)) (OneOf (is_char CHR ''.'')))
             (between 2 6 (OneOf word_char))) ((d @ ''.'') @ t)"
    unfolding matches_Then [of "Then (one_or_more (OneOf label_char)) (OneOf (is_char CHR ''.''))"]
    using 2 3 by blast
  have 5: "matches (Then (OneOf (is_char CHR ''@''))
          (Then (Then (one_or_more (OneOf label_char)) (OneOf (is_char CHR ''.'')))
             (between 2 6 (OneOf word_char)))) (CHR ''@'' # (d @ ''.'') @ t)"
    using 4 by (simp add: matches_Then_OneOf is_char_def del: matches.simps)
  have "matches emailRegex (l @ CHR ''@'' # (d @ ''.'') @ t)"
    unfolding emailRegex_def matches_Then [of "one_or_more (OneOf local_char)"]
    using 1 5 by blast
  then show ?L using x by simp
qed

lemma test_emailRegex:
  "test emailRegex (Some x) =
     (\<exists>l d t. x = l @ ''@'' @ d @ ''.'' @ t \<and> l \<noteq> [] \<and> list_all local_char l \<and>
        d \<noteq> [] \<and> list_all label_char d \<and> 2 \<le> length t \<and> length t \<le> 6 \<and> list_all word_char t)"
  unfolding test_def str_def option.case matches_emailRegex ..

lemma matches_Many:
  "matches (Many r) w = (\<exists>ws. w = concat ws \<and> (\<forall>u \<in> set ws. u \<noteq> [] \<and> matches r u))"
proof
  show "\<exists>ws. w = concat ws \<and> (\<forall>u \<in> set ws. u \<noteq> [] \<and> matches r u)" if "matches (Many r) w"
    using that
  proof (induction "length w" arbitrary: w rule: less_induct)
    case less
    show ?case
    proof (cases w)
      case Nil
      then have "w = concat [] \<and> (\<forall>u \<in> set []. u \<noteq> [] \<and> matches r u)" by simp
      then show ?thesis by (rule exI)
    next
      case (Cons c w')
      from less.prems have "matches (Many r) (c # w')" unfolding Cons .
      then have "\<exists>u v. w' = u @ v \<and> matches r (c # u) \<and> matches (Many r) v"
        by (simp only: matches_Many_Cons)
      then obtain u v where uv: "w' = u @ v" "matches r (c # u)" "matches (Many r) v"
        by blast
      have "length v < length w" using Cons uv(1) by simp
      from less.hyps [OF this uv(3)] obtain vs
        where vs: "v = concat vs" "\<forall>u \<in> set vs. u \<noteq> [] \<and> matches r u" by blast
      have "w = concat ((c # u) # vs)"
        using Cons uv(1) vs(1) by simp
      moreover have "\<forall>x \<in> set ((c # u) # vs). x \<noteq> [] \<and> matches r x"
        using uv(2) vs(2) by (simp del: matches.simps)
      ultimately show ?thesis by blast
    qed
  qed
next
  assume "\<exists>ws. w = concat ws \<and> (\<forall>u \<in> set ws. u \<noteq> [] \<and> matches r u)"
  then obtain ws where "w = concat ws" "\<forall>u \<in> set ws. u \<noteq> [] \<and> matches r u" by blast
  then show "matches (Many r) w"
  proof (induction ws arbitrary: w)
    case Nil
    then show ?case by simp
  next
    case (Cons x xs)
    from Cons.prems(2) obtain c u where x: "x = c # u" by (cases x) auto
    have "matches (Many r) (concat xs)"
      using Cons.prems(2) by (intro Cons.IH) simp_all
    moreover have "matches r (c # u)"
      using Cons.prems(2) x by (simp del: matches.simps)
    ultimately have "\<exists>u' v. u @ concat xs = u' @ v \<and> matches r (c # u') \<and> matches (Many r) v"
      by blast
    then have "matches (Many r) (c # (u @ concat xs))"
      by (simp only: matches_Many_Cons)
    then show ?case unfolding Cons.prems(1) x by (simp del: matches.simps)
  qed
qed

lemma matches_lnameRegex:
  "matches lnameRegex x =
     (\<exists>first more. x = first @ concat more \<and> first \<noteq> [] \<and> list_all letter first \<and>
        (\<forall>part \<in> set more. \<exists>j name. part = j # name \<and> name_joiner j \<and> name \<noteq> [] \<and>
           list_all letter name))"
proof -
  have part: "(u \<noteq> [] \<and> matches (Then (OneOf name_joiner) (one_or_more (OneOf letter))) u) =
      (\<exists>j name. u = j # name \<and> name_joiner j \<and> name \<noteq> [] \<and> list_all letter name)" for u
    by (cases u) (simp_all add: matches_Then_OneOf matches_one_or_more_OneOf del: matches.simps)
  have "matches lnameRegex x =
      (\<exists>first v. x = first @ v \<and> (first \<noteq> [] \<and> list_all letter first) \<and>
         (\<exists>more. v = concat more \<and>
            (\<forall>part \<in> set more. \<exists>j name. part = j # name \<and> name_joiner j \<and> name \<noteq> [] \<and>
               list_all letter name)))"
    unfolding lnameRegex_def matches_Then [of "one_or_more (OneOf letter)"]
      matches_one_or_more_OneOf matches_Many part ..
  also have "\<dots> =
      (\<exists>first more. x = first @ concat more \<and> first \<noteq> [] \<and> list_all letter first \<and>
        (\<forall>part \<in> set more. \<exists>j name. part = j # name \<and> name_joiner j \<and> name \<noteq> [] \<and>
           list_all letter name))"
    by blast
  finally show ?thesis .
qed

lemma test_lnameRegex:
  "test lnameRegex (Some x) =
     (\<exists>first more. x = first @ concat more \<and> first \<noteq> [] \<and> list_all letter first \<and>
        (\<forall>part \<in> set more. \<exists>j name. part = j # name \<and> name_joiner j \<and> name \<noteq> [] \<and>
           list_all letter name))"
  unfolding test_def str_def option.case matches_lnameRegex ..


lemma no_dot_or_at: "label_char c \<or> word_char c \<Longrightarrow> c \<noteq> CHR ''.'' \<and> c \<noteq> CHR ''@''"
  by (auto simp: label_char_def word_char_def letter_def digit_def in_range_def)

lemma no_at: "local_char c \<Longrightarrow> c \<noteq> CHR ''@''"
  by (auto simp: local_char_def word_char_def letter_def digit_def in_range_def)

lemma test_emailRegex_one_label:
  "test emailRegex (Some x) =
     (\<exists>l d t. x = l @ ''@'' @ d @ ''.'' @ t \<and> l \<noteq> [] \<and> list_all local_char l \<and>
        d \<noteq> [] \<and> list_all label_char d \<and> 2 \<le> length t \<and> length t \<le> 6 \<and>
        list_all word_char t \<and> CHR ''.'' \<notin> set (d @ t) \<and> CHR ''@'' \<notin> set (l @ d @ t))"
  (is "?L = ?R")
proof
  assume ?R
  then show ?L unfolding test_emailRegex by blast
next
  assume ?L
  then obtain l d t where x: "x = l @ ''@'' @ d @ ''.'' @ t" "l \<noteq> []" "list_all local_char l"
    "d \<noteq> []" "list_all label_char d" "2 \<le> length t" "length t \<le> 6" "list_all word_char t"
    unfolding test_emailRegex by blast
  have "CHR ''.'' \<notin> set (d @ t)" "CHR ''@'' \<notin> set (l @ d @ t)"
    using x(3,5,8) no_dot_or_at no_at unfolding list_all_iff set_append by blast+
  with x show ?R by blast
qed

section \<open>The handlers\<close>

lemma missing_iff: "missing v = (\<not> truthy v)"
  by (auto simp: missing_def truthy_def split: option.splits)

lemma truthy_Some: "truthy v \<Longrightarrow> v = Some (str v) \<and> str v \<noteq> []"
  by (auto simp: truthy_def str_def split: option.splits)

lemma first_failure_None: "(first_failure b = None) = passes_validation b"
  by (simp add: first_failure_def validation_checks_def passes_validation_def)

lemma register_invalid:
  assumes ff: "first_failure b = Some m"
  shows "register s b = (reply 400 (Message m), s)"
proof -
  let ?f = "truthy (b ''firstName'')" and ?fr = "test fnameRegex (b ''firstName'')"
  let ?l = "truthy (b ''lastName'')" and ?lr = "test lnameRegex (b ''lastName'')"
  let ?e = "truthy (b ''email'')" and ?er = "test emailRegex (b ''email'')"
  let ?p = "truthy (b ''phone'')" and ?pr = "test phoneNumberRegex (b ''phone'')"
  let ?c = "truthy (b ''username'') \<and> truthy (b ''password'')"
  note defs = first_failure_def validation_checks_def register_def
  consider (f) "\<not> ?f" | (fr) "?f" "\<not> ?fr" | (l) "?f" "?fr" "\<not> ?l" | (lr) "?f" "?fr" "?l" "\<not> ?lr"
    | (e) "?f" "?fr" "?l" "?lr" "\<not> ?e" | (er) "?f" "?fr" "?l" "?lr" "?e" "\<not> ?er"
    | (p) "?f" "?fr" "?l" "?lr" "?e" "?er" "\<not> ?p"
    | (pr) "?f" "?fr" "?l" "?lr" "?e" "?er" "?p" "\<not> ?pr"
    | (c) "?f" "?fr" "?l" "?lr" "?e" "?er" "?p" "?pr" "\<not> ?c"
    | (ok) "?f" "?fr" "?l" "?lr" "?e" "?er" "?p" "?pr" "?c"
    by blast
  then show ?thesis
  proof cases
    case f
    with ff show ?thesis by (simp add: defs)
  next
    case fr
    with ff show ?thesis by (simp add: defs)
  next
    case l
    with ff show ?thesis by (simp add: defs)
  next
    case lr
    with ff show ?thesis by (simp add: defs)
  next
    case e
    with ff show ?thesis by (simp add: defs)
  next
    case er
    with ff show ?thesis by (simp add: defs)
  next
    case p
    with ff show ?thesis by (simp add: defs)
  next
    case pr
    with ff show ?thesis by (simp add: defs)
  next
    case c
    with ff show ?thesis by (simp add: defs)
  next
    case ok
    with ff show ?thesis by (simp add: defs)
  qed
qed

lemma required_paths_document_of: "passes_validation b \<Longrightarrow> required_paths (document_of b)"
  by (simp add: passes_validation_def required_paths_def document_of_def truthy_Some)

lemma register_valid:
  assumes "passes_validation b"
  shows "register s b =
    (case find (\<lambda>u. username u = str (b ''username'')) s of
       Some existingUser \<Rightarrow> (reply 400 (Message ''Username already taken''), s)
     | None \<Rightarrow> (reply 201 (Document (document_of b)), s @ [document_of b]))"
proof -
  have "required_paths (document_of b)"
    using assms by (rule required_paths_document_of)
  then have "save (document_of b) s = Inr (s @ [document_of b])"
    by (simp add: save_def)
  then show ?thesis
    using assms
    by (simp add: register_def passes_validation_def findOne_def document_of_def Let_def
        split: option.splits)
qed

lemma find_username_None:
  "(find (\<lambda>u. username u = n) s = None) = (n \<notin> username ` set s)"
  by (auto simp: find_None_iff)

lemma find_append_new:
  "n \<notin> username ` set s \<Longrightarrow> username d = n \<Longrightarrow> find (\<lambda>u. username u = n) (s @ [d]) = Some d"
  by (induction s) auto

lemma login_store: "snd (login s b) = s"
  by (simp add: login_def findOne_def split: option.splits)

lemma register_store:
  "snd (register s b) = s \<and> fst (register s b) \<noteq> reply 201 (Document (document_of b)) \<or>
   (snd (register s b) = s @ [document_of b] \<and> fst (register s b) = reply 201 (Document (document_of b))
      \<and> passes_validation b \<and> str (b ''username'') \<notin> username ` set s)"
proof (cases "first_failure b")
  case None
  then have "passes_validation b" by (simp add: first_failure_None)
  then show ?thesis
    by (auto simp: register_valid find_username_None [symmetric] reply_def split: option.splits)
next
  case (Some m)
  then show ?thesis by (simp add: register_invalid reply_def)
qed

lemma perform_store:
  "perform op s = s \<or> (\<exists>u. perform op s = s @ [u] \<and> username u \<notin> username ` set s)"
proof (cases op)
  case (Login b)
  then show ?thesis by (simp add: login_store)
next
  case (Register b)
  have "username (document_of b) = str (b ''username'')" by (simp add: document_of_def)
  then show ?thesis
    using register_store [of s b] Register by auto
qed

lemma run_extends: "take (length s) (run ops s) = s"
  unfolding run_def
proof (induction ops arbitrary: s)
  case Nil
  show ?case by simp
next
  case (Cons op ops)
  from perform_store [of op s] obtain new where new: "perform op s = s @ new" by auto
  have "take (length (s @ new)) (fold perform ops (s @ new)) = s @ new"
    by (rule Cons.IH)
  then have "take (length s) (take (length (s @ new)) (fold perform ops (s @ new))) = s"
    by simp
  then show ?case by (simp add: new min_def)
qed

lemma find_append_found: "find P xs = Some d \<Longrightarrow> find P (xs @ ys) = Some d"
  by (induction xs) (auto split: if_splits)

lemma run_appends: "\<exists>later. run ops s = s @ later"
proof -
  have "run ops s = take (length s) (run ops s) @ drop (length s) (run ops s)"
    by simp
  then have "run ops s = s @ drop (length s) (run ops s)"
    by (simp only: run_extends)
  then show ?thesis by (rule exI)
qed

lemma register_bad_firstName:
  "truthy (b ''firstName'') \<Longrightarrow> \<not> test fnameRegex (b ''firstName'') \<Longrightarrow>
   register s b = (reply 400 (Message ''First Name should contain only letters''), s)"
  by (simp add: register_def)

lemma register_bad_lastName:
  "truthy (b ''firstName'') \<Longrightarrow> test fnameRegex (b ''firstName'') \<Longrightarrow>
   truthy (b ''lastName'') \<Longrightarrow> \<not> test lnameRegex (b ''lastName'') \<Longrightarrow>
   register s b = (reply 400 (Message ''Last Name should contain only letters''), s)"
  by (simp add: register_def)

lemma register_bad_email:
  "truthy (b ''firstName'') \<Longrightarrow> test fnameRegex (b ''firstName'') \<Longrightarrow>
   truthy (b ''lastName'') \<Longrightarrow> test lnameRegex (b ''lastName'') \<Longrightarrow>
   truthy (b ''email'') \<Longrightarrow> \<not> test emailRegex (b ''email'') \<Longrightarrow>
   register s b = (reply 400 (Message ''Email format is invalid''), s)"
  by (simp add: register_def)

lemma register_bad_phone:
  "truthy (b ''firstName'') \<Longrightarrow> test fnameRegex (b ''firstName'') \<Longrightarrow>
   truthy (b ''lastName'') \<Longrightarrow> test lnameRegex (b ''lastName'') \<Longrightarrow>
   truthy (b ''email'') \<Longrightarrow> test emailRegex (b ''email'') \<Longrightarrow>
   truthy (b ''phone'') \<Longrightarrow> \<not> test phoneNumberRegex (b ''phone'') \<Longrightarrow>
   register s b = (reply 400 (Message ''Phone Number must be 10 digits''), s)"
  by (simp add: register_def)

lemma register_cong:
  assumes t: "\<And>f. truthy (c f) = truthy (b f)" and v: "\<And>f. truthy (b f) \<Longrightarrow> c f = b f"
  shows "register s c = register s b"
proof -
  let ?f = "truthy (b ''firstName'')" and ?fr = "test fnameRegex (b ''firstName'')"
  let ?l = "truthy (b ''lastName'')" and ?lr = "test lnameRegex (b ''lastName'')"
  let ?e = "truthy (b ''email'')" and ?er = "test emailRegex (b ''email'')"
  let ?p = "truthy (b ''phone'')" and ?pr = "test phoneNumberRegex (b ''phone'')"
  let ?u = "truthy (b ''username'')" and ?w = "truthy (b ''password'')"
  note vs = v [of "''firstName''"] v [of "''lastName''"] v [of "''email''"] v [of "''phone''"]
    v [of "''username''"] v [of "''password''"]
  consider (f) "\<not> ?f" | (fr) "?f" "\<not> ?fr" | (l) "?f" "?fr" "\<not> ?l" | (lr) "?f" "?fr" "?l" "\<not> ?lr"
    | (e) "?f" "?fr" "?l" "?lr" "\<not> ?e" | (er) "?f" "?fr" "?l" "?lr" "?e" "\<not> ?er"
    | (p) "?f" "?fr" "?l" "?lr" "?e" "?er" "\<not> ?p"
    | (pr) "?f" "?fr" "?l" "?lr" "?e" "?er" "?p" "\<not> ?pr"
    | (u) "?f" "?fr" "?l" "?lr" "?e" "?er" "?p" "?pr" "\<not> ?u"
    | (w) "?f" "?fr" "?l" "?lr" "?e" "?er" "?p" "?pr" "?u" "\<not> ?w"
    | (ok) "?f" "?fr" "?l" "?lr" "?e" "?er" "?p" "?pr" "?u" "?w"
    by blast
  then show ?thesis
  proof cases
    case f
    then show ?thesis by (simp add: register_def t)
  next
    case fr
    with vs show ?thesis by (simp add: register_def t)
  next
    case l
    with vs show ?thesis by (simp add: register_def t)
  next
    case lr
    with vs show ?thesis by (simp add: register_def t)
  next
    case e
    with vs show ?thesis by (simp add: register_def t)
  next
    case er
    with vs show ?thesis by (simp add: register_def t)
  next
    case p
    with vs show ?thesis by (simp add: register_def t)
  next
    case pr
    with vs show ?thesis by (simp add: register_def t)
  next
    case u
    with vs show ?thesis by (simp add: register_def t)
  next
    case w
    with vs show ?thesis by (simp add: register_def t)
  next
    case ok
    with vs have same: "c ''firstName'' = b ''firstName''" "c ''lastName'' = b ''lastName''"
      "c ''email'' = b ''email''" "c ''phone'' = b ''phone''"
      "c ''username'' = b ''username''" "c ''password'' = b ''password''"
      by simp_all
    show ?thesis unfolding register_def same by (rule refl)
  qed
qed

lemma login_cong:
  assumes t: "\<And>f. truthy (c f) = truthy (b f)" and v: "\<And>f. truthy (b f) \<Longrightarrow> c f = b f"
  shows "login s c = login s b"
proof (cases "truthy (b ''username'') \<and> truthy (b ''password'')")
  case True
  with v [of "''username''"] v [of "''password''"]
  have same: "c ''username'' = b ''username''" "c ''password'' = b ''password''"
    by simp_all
  show ?thesis unfolding login_def same by (rule refl)
next
  case False
  then show ?thesis by (auto simp: login_def t)
qed

lemma empty_or_absent:
  "truthy ((b(k \<mapsto> [])) f) = truthy ((b(k := None)) f)"
  "truthy ((b(k := None)) f) \<Longrightarrow> (b(k \<mapsto> [])) f = (b(k := None)) f"
  by (auto simp: truthy_def)

lemma login_empty_field:
  "b ''username'' = Some [] \<or> b ''password'' = Some [] \<longrightarrow>
     login s b = (reply 400 (Message ''Username and password are required''), s)"
  by (auto simp: login_def truthy_def)

lemma register_no_firstName:
  "\<not> truthy (b ''firstName'') \<Longrightarrow>
   register s b = (reply 400 (Message ''First name is required''), s)"
  by (simp add: register_def)

lemma register_no_lastName:
  "truthy (b ''firstName'') \<Longrightarrow> test fnameRegex (b ''firstName'') \<Longrightarrow>
   \<not> truthy (b ''lastName'') \<Longrightarrow>
   register s b = (reply 400 (Message ''Last Name is required''), s)"
  by (simp add: register_def)

lemma register_no_email:
  "truthy (b ''firstName'') \<Longrightarrow> test fnameRegex (b ''firstName'') \<Longrightarrow>
   truthy (b ''lastName'') \<Longrightarrow> test lnameRegex (b ''lastName'') \<Longrightarrow>
   \<not> truthy (b ''email'') \<Longrightarrow>
   register s b = (reply 400 (Message ''Email is required''), s)"
  by (simp add: register_def)

lemma register_no_phone:
  "truthy (b ''firstName'') \<Longrightarrow> test fnameRegex (b ''firstName'') \<Longrightarrow>
   truthy (b ''lastName'') \<Longrightarrow> test lnameRegex (b ''lastName'') \<Longrightarrow>
   truthy (b ''email'') \<Longrightarrow> test emailRegex (b ''email'') \<Longrightarrow>
   \<not> truthy (b ''phone'') \<Longrightarrow>
   register s b = (reply 400 (Message ''Phone Number is required''), s)"
  by (simp add: register_def)

lemma register_no_credentials:
  "truthy (b ''firstName'') \<Longrightarrow> test fnameRegex (b ''firstName'') \<Longrightarrow>
   truthy (b ''lastName'') \<Longrightarrow> test lnameRegex (b ''lastName'') \<Longrightarrow>
   truthy (b ''email'') \<Longrightarrow> test emailRegex (b ''email'') \<Longrightarrow>
   truthy (b ''phone'') \<Longrightarrow> test phoneNumberRegex (b ''phone'') \<Longrightarrow>
   \<not> truthy (b ''username'') \<or> \<not> truthy (b ''password'') \<Longrightarrow>
   register s b = (reply 400 (Message ''Username and password are required''), s)"
  by (simp add: register_def)

lemma not_truthy_empty: "v = Some [] \<Longrightarrow> \<not> truthy v"
  by (simp add: truthy_def)

lemma register_empty_firstName:
  "b ''firstName'' = Some [] \<longrightarrow> register s b = (reply 400 (Message ''First name is required''), s)"
  by (simp add: register_no_firstName not_truthy_empty)

lemma register_empty_lastName:
  "b ''lastName'' = Some [] \<longrightarrow>
     json (fst (register s b)) \<noteq> Message ''Last Name should contain only letters'' \<and>
     (truthy (b ''firstName'') \<and> test fnameRegex (b ''firstName'') \<longrightarrow>
        register s b = (reply 400 (Message ''Last Name is required''), s))"
proof (intro impI conjI)
  assume "b ''lastName'' = Some []"
  then have n: "\<not> truthy (b ''lastName'')" by (rule not_truthy_empty)
  consider "\<not> truthy (b ''firstName'')"
    | "truthy (b ''firstName'')" "\<not> test fnameRegex (b ''firstName'')"
    | "truthy (b ''firstName'')" "test fnameRegex (b ''firstName'')"
    by blast
  then show "json (fst (register s b)) \<noteq> Message ''Last Name should contain only letters''"
    by cases
      (simp_all add: register_no_firstName register_bad_firstName register_no_lastName n reply_def)
  show "register s b = (reply 400 (Message ''Last Name is required''), s)"
    if "truthy (b ''firstName'') \<and> test fnameRegex (b ''firstName'')"
    using that n by (simp add: register_no_lastName)
qed

lemma register_empty_email:
  "b ''email'' = Some [] \<longrightarrow>
     json (fst (register s b)) \<noteq> Message ''Email format is invalid'' \<and>
     (truthy (b ''firstName'') \<and> test fnameRegex (b ''firstName'') \<and>
      truthy (b ''lastName'') \<and> test lnameRegex (b ''lastName'') \<longrightarrow>
        register s b = (reply 400 (Message ''Email is required''), s))"
proof (intro impI conjI)
  assume "b ''email'' = Some []"
  then have n: "\<not> truthy (b ''email'')" by (rule not_truthy_empty)
  consider "\<not> truthy (b ''firstName'')"
    | "truthy (b ''firstName'')" "\<not> test fnameRegex (b ''firstName'')"
    | "truthy (b ''firstName'')" "test fnameRegex (b ''firstName'')" "\<not> truthy (b ''lastName'')"
    | "truthy (b ''firstName'')" "test fnameRegex (b ''firstName'')" "truthy (b ''lastName'')"
      "\<not> test lnameRegex (b ''lastName'')"
    | "truthy (b ''firstName'')" "test fnameRegex (b ''firstName'')" "truthy (b ''lastName'')"
      "test lnameRegex (b ''lastName'')"
    by blast
  then show "json (fst (register s b)) \<noteq> Message ''Email format is invalid''"
    by cases
      (simp_all add: register_no_firstName register_bad_firstName register_no_lastName
        register_bad_lastName register_no_email n reply_def)
  show "register s b = (reply 400 (Message ''Email is required''), s)"
    if "truthy (b ''firstName'') \<and> test fnameRegex (b ''firstName'') \<and>
      truthy (b ''lastName'') \<and> test lnameRegex (b ''lastName'')"
    using that n by (simp add: register_no_email)
qed

lemma register_empty_phone:
  "b ''phone'' = Some [] \<longrightarrow>
     json (fst (register s b)) \<noteq> Message ''Phone Number must be 10 digits'' \<and>
     (truthy (b ''firstName'') \<and> test fnameRegex (b ''firstName'') \<and>
      truthy (b ''lastName'') \<and> test lnameRegex (b ''lastName'') \<and>
      truthy (b ''email'') \<and> test emailRegex (b ''email'') \<longrightarrow>
        register s b = (reply 400 (Message ''Phone Number is required''), s))"
proof (intro impI conjI)
  assume "b ''phone'' = Some []"
  then have n: "\<not> truthy (b ''phone'')" by (rule not_truthy_empty)
  consider "\<not> truthy (b ''firstName'')"
    | "truthy (b ''firstName'')" "\<not> test fnameRegex (b ''firstName'')"
    | "truthy (b ''firstName'')" "test fnameRegex (b ''firstName'')" "\<not> truthy (b ''lastName'')"
    | "truthy (b ''firstName'')" "test fnameRegex (b ''firstName'')" "truthy (b ''lastName'')"
      "\<not> test lnameRegex (b ''lastName'')"
    | "truthy (b ''firstName'')" "test fnameRegex (b ''firstName'')" "truthy (b ''lastName'')"
      "test lnameRegex (b ''lastName'')" "\<not> truthy (b ''email'')"
    | "truthy (b ''firstName'')" "test fnameRegex (b ''firstName'')" "truthy (b ''lastName'')"
      "test lnameRegex (b ''lastName'')" "truthy (b ''email'')" "\<not> test emailRegex (b ''email'')"
    | "truthy (b ''firstName'')" "test fnameRegex (b ''firstName'')" "truthy (b ''lastName'')"
      "test lnameRegex (b ''lastName'')" "truthy (b ''email'')" "test emailRegex (b ''email'')"
    by blast
  then show "json (fst (register s b)) \<noteq> Message ''Phone Number must be 10 digits''"
    by cases
      (simp_all add: register_no_firstName register_bad_firstName register_no_lastName
        register_bad_lastName register_no_email register_bad_email register_no_phone n reply_def)
  show "register s b = (reply 400 (Message ''Phone Number is required''), s)"
    if "truthy (b ''firstName'') \<and> test fnameRegex (b ''firstName'') \<and>
      truthy (b ''lastName'') \<and> test lnameRegex (b ''lastName'') \<and>
      truthy (b ''email'') \<and> test emailRegex (b ''email'')"
    using that n by (simp add: register_no_phone)
qed

lemma register_empty_credentials:
  "b ''username'' = Some [] \<or> b ''password'' = Some [] \<longrightarrow>
     (truthy (b ''firstName'') \<and> test fnameRegex (b ''firstName'') \<and>
      truthy (b ''lastName'') \<and> test lnameRegex (b ''lastName'') \<and>
      truthy (b ''email'') \<and> test emailRegex (b ''email'') \<and>
      truthy (b ''phone'') \<and> test phoneNumberRegex (b ''phone'') \<longrightarrow>
        register s b = (reply 400 (Message ''Username and password are required''), s))"
proof (intro impI)
  assume "b ''username'' = Some [] \<or> b ''password'' = Some []"
  then have n: "\<not> truthy (b ''username'') \<or> \<not> truthy (b ''password'')"
    by (auto simp: truthy_def)
  assume "truthy (b ''firstName'') \<and> test fnameRegex (b ''firstName'') \<and>
      truthy (b ''lastName'') \<and> test lnameRegex (b ''lastName'') \<and>
      truthy (b ''email'') \<and> test emailRegex (b ''email'') \<and>
      truthy (b ''phone'') \<and> test phoneNumberRegex (b ''phone'')"
  with n show "register s b = (reply 400 (Message ''Username and password are required''), s)"
    by (intro register_no_credentials) simp_all
qed

section \<open>The specification's scenario, evaluated\<close>

lemma jane_passes: "passes_validation jane"
  by code_simp

lemma jane_document:
  "document_of jane =
     \<lparr>firstName = ''Jane'', lastName = ''Doe'', username = ''jdoe'', password = ''pw1'',
      email = ''jane@doe.com'', phone = ''5551234567''\<rparr>"
  by (simp add: document_of_def jane_def str_def)

lemma not_letter: "digit c \<or> c = CHR '' '' \<Longrightarrow> \<not> letter c"
  by (auto simp: digit_def letter_def in_range_def)

lemma examples_lastName:
  "test lnameRegex (Some ''O'Brien-Smith'')" "\<not> test lnameRegex (Some ''Smith2'')"
  by code_simp+

lemma examples_email:
  "test emailRegex (Some ''a@b.co'')" "\<not> test emailRegex (Some ''a@b'')"
  "\<not> test emailRegex (Some ''a@mail.example.com'')" "test emailRegex (Some ''a@example.com'')"
  by code_simp+

lemma examples_phone:
  "test phoneNumberRegex (Some ''1234567890'')" "\<not> test phoneNumberRegex (Some ''12345'')"
  by code_simp+


lemma jane_with_rejected:
  "first_failure (jane_with ''firstName'' ''J4ne'') = Some ''First Name should contain only letters''"
  "first_failure (jane_with ''lastName'' ''Smith2'') = Some ''Last Name should contain only letters''"
  "first_failure (jane_with ''email'' ''a@b'') = Some ''Email format is invalid''"
  "first_failure (jane_with ''email'' ''a@mail.example.com'') = Some ''Email format is invalid''"
  "first_failure (jane_with ''phone'' ''12345'') = Some ''Phone Number must be 10 digits''"
  "first_failure (jane_with ''email'' []) = Some ''Email is required''"
  by code_simp+

lemma jane_with_accepted:
  "passes_validation (jane_with ''lastName'' ''O'Brien-Smith'')"
  "passes_validation (jane_with ''email'' ''a@b.co'')"
  "passes_validation (jane_with ''phone'' ''1234567890'')"
  "passes_validation (jane_with ''email'' ''a@example.com'')"
  by code_simp+

lemma register_first:
  "passes_validation b \<Longrightarrow> register [] b = (reply 201 (Document (document_of b)), [document_of b])"
  by (simp add: register_valid)

lemma distinct_messages: "distinct (map snd validation_checks)"
  by (simp add: validation_checks_def)

lemma register_after_validation:
  "first_failure b = None \<longrightarrow>
     register s b = (reply 201 (Document (document_of b)), s @ [document_of b]) \<or>
     register s b = (reply 400 (Message ''Username already taken''), s)"
  by (auto simp: first_failure_None register_valid split: option.splits)

lemma register_digit_or_space:
  "b ''firstName'' = Some x \<and> (\<exists>c \<in> set x. digit c \<or> c = CHR '' '') \<longrightarrow>
     register s b = (reply 400 (Message ''First Name should contain only letters''), s)"
proof
  assume h: "b ''firstName'' = Some x \<and> (\<exists>c \<in> set x. digit c \<or> c = CHR '' '')"
  then obtain c where c: "c \<in> set x" "\<not> letter c" using not_letter by blast
  then have "\<not> list_all letter x" by (auto simp: list_all_iff)
  then have "\<not> test fnameRegex (b ''firstName'')" using h by (simp add: test_fnameRegex)
  moreover have "truthy (b ''firstName'')" using h c(1) by (auto simp: truthy_def)
  ultimately show "register s b = (reply 400 (Message ''First Name should contain only letters''), s)"
    by (rule register_bad_firstName [rotated])
qed

lemma others_pass:
  "passes_validation (jane_with ''username'' ''bob'')"
  "passes_validation (jane_with ''username'' ''carol'')"
  by code_simp+

section \<open>Claims\<close>

text \<open>
  C1. Round trip. A register request whose fields pass validation and whose username no
  document of the collection carries is answered 201 with the new document, whose six
  fields are the six strings of the request. Every later login with the same username
  and password is answered 200 with that document: directly after the registration, and
  after any further sequence of logins and registrations, whoever else has registered in
  between. A login under that username with another password is answered 401.
\<close>

theorem register_then_login:
  assumes "passes_validation b"
    and "str (b ''username'') \<notin> username ` set s"
    and "c ''username'' = b ''username''" and "c ''password'' = b ''password''"
  shows "\<exists>u. register s b = (reply 201 (Document u), s @ [u]) \<and>
           login (s @ [u]) c = (reply 200 (Document u), s @ [u]) \<and>
           login (run ops (s @ [u])) c = (reply 200 (Document u), run ops (s @ [u])) \<and>
           (\<forall>w. w ''username'' = b ''username'' \<and> truthy (w ''password'') \<and>
                w ''password'' \<noteq> b ''password'' \<longrightarrow>
                login (run ops (s @ [u])) w =
                  (reply 401 (Message ''Invalid credentials''), run ops (s @ [u]))) \<and>
           b ''firstName'' = Some (firstName u) \<and> b ''lastName'' = Some (lastName u) \<and>
           b ''username'' = Some (username u) \<and> b ''password'' = Some (password u) \<and>
           b ''email'' = Some (email u) \<and> b ''phone'' = Some (phone u)"
proof -
  let ?u = "document_of b"
  have reg: "register s b = (reply 201 (Document ?u), s @ [?u])"
    using assms(1,2) by (simp add: register_valid find_username_None [symmetric])
  have t: "truthy (b ''username'')" "truthy (b ''password'')"
    using assms(1) by (simp_all add: passes_validation_def)
  have first: "find (\<lambda>u. username u = str (b ''username'')) (s @ [?u]) = Some ?u"
    using assms(2) by (intro find_append_new) (simp_all add: document_of_def)
  have found: "find (\<lambda>u. username u = str (b ''username'')) (run ops' (s @ [?u])) = Some ?u" for ops'
  proof -
    obtain later where "run ops' (s @ [?u]) = (s @ [?u]) @ later"
      using run_appends by blast
    with first show ?thesis by (simp only: find_append_found)
  qed
  have pw: "password ?u = str (b ''password'')"
    by (simp add: document_of_def)
  have log: "login (run ops' (s @ [?u])) c = (reply 200 (Document ?u), run ops' (s @ [?u]))" for ops'
    using t assms(3,4) found [of ops'] pw by (simp add: login_def findOne_def)
  have now: "login (s @ [?u]) c = (reply 200 (Document ?u), s @ [?u])"
    using log [of "[]"] by (simp add: run_def)
  have wrong: "login (run ops (s @ [?u])) w =
      (reply 401 (Message ''Invalid credentials''), run ops (s @ [?u]))"
    if w: "w ''username'' = b ''username'' \<and> truthy (w ''password'') \<and>
        w ''password'' \<noteq> b ''password''" for w
  proof -
    from w t(2) have "str (w ''password'') \<noteq> str (b ''password'')"
      using truthy_Some [of "w ''password''"] truthy_Some [of "b ''password''"] by auto
    with w t(1) found [of ops] pw show ?thesis
      by (simp add: login_def findOne_def)
  qed
  have fields: "b ''firstName'' = Some (firstName ?u)" "b ''lastName'' = Some (lastName ?u)"
    "b ''username'' = Some (username ?u)" "b ''password'' = Some (password ?u)"
    "b ''email'' = Some (email ?u)" "b ''phone'' = Some (phone ?u)"
    using assms(1) by (simp_all add: passes_validation_def document_of_def truthy_Some)
  from reg now log [of ops] wrong fields show ?thesis by blast
qed

theorem register_then_login_witness:
  "passes_validation jane \<and>
   str (jane ''username'') \<notin> username ` set [document_of (jane_with ''username'' ''bob'')] \<and>
   jane_login ''username'' = jane ''username'' \<and> jane_login ''password'' = jane ''password'' \<and>
   jane_wrong ''username'' = jane ''username'' \<and> truthy (jane_wrong ''password'') \<and>
   jane_wrong ''password'' \<noteq> jane ''password'' \<and>
   register [document_of (jane_with ''username'' ''bob'')] jane =
     (reply 201 (Document (document_of jane)),
      [document_of (jane_with ''username'' ''bob''), document_of jane]) \<and>
   run [Register (jane_with ''username'' ''carol''), Login jane_wrong]
       [document_of (jane_with ''username'' ''bob''), document_of jane] =
     [document_of (jane_with ''username'' ''bob''), document_of jane,
      document_of (jane_with ''username'' ''carol'')] \<and>
   login [document_of (jane_with ''username'' ''bob''), document_of jane,
          document_of (jane_with ''username'' ''carol'')] jane_login =
     (reply 200 (Document (document_of jane)),
      [document_of (jane_with ''username'' ''bob''), document_of jane,
       document_of (jane_with ''username'' ''carol'')]) \<and>
   login [document_of (jane_with ''username'' ''bob''), document_of jane,
          document_of (jane_with ''username'' ''carol'')] jane_wrong =
     (reply 401 (Message ''Invalid credentials''),
      [document_of (jane_with ''username'' ''bob''), document_of jane,
       document_of (jane_with ''username'' ''carol'')])"
proof -
  let ?bob = "document_of (jane_with ''username'' ''bob'')"
  let ?carol = "document_of (jane_with ''username'' ''carol'')"
  let ?ops = "[Register (jane_with ''username'' ''carol''), Login jane_wrong]"
  have names: "username ?bob = ''bob''" "username ?carol = ''carol''"
    "username (document_of jane) = ''jdoe''" "str (jane ''username'') = ''jdoe''"
    "str (jane_with ''username'' ''carol'' ''username'') = ''carol''"
    by (simp_all add: document_of_def jane_with_def jane_def str_def)
  have h: "passes_validation jane" "str (jane ''username'') \<notin> username ` set [?bob]"
    "jane_login ''username'' = jane ''username''" "jane_login ''password'' = jane ''password''"
    by (simp_all add: jane_passes names) (simp_all add: jane_def jane_login_def)
  have w: "jane_wrong ''username'' = jane ''username'' \<and> truthy (jane_wrong ''password'') \<and>
      jane_wrong ''password'' \<noteq> jane ''password''"
    by (simp add: jane_def jane_wrong_def truthy_def)
  have reg: "register [?bob] jane = (reply 201 (Document (document_of jane)), [?bob, document_of jane])"
    using jane_passes by (simp add: register_valid names)
  have "register [?bob, document_of jane] (jane_with ''username'' ''carol'') =
      (reply 201 (Document ?carol), [?bob, document_of jane, ?carol])"
    using others_pass(2) by (simp add: register_valid names)
  then have run: "run ?ops [?bob, document_of jane] = [?bob, document_of jane, ?carol]"
    by (simp add: run_def login_store)
  from register_then_login [OF h, of ?ops] obtain u
    where u: "register [?bob] jane = (reply 201 (Document u), [?bob] @ [u])"
      "login (run ?ops ([?bob] @ [u])) jane_login = (reply 200 (Document u), run ?ops ([?bob] @ [u]))"
      "\<forall>w. w ''username'' = jane ''username'' \<and> truthy (w ''password'') \<and>
           w ''password'' \<noteq> jane ''password'' \<longrightarrow>
           login (run ?ops ([?bob] @ [u])) w =
             (reply 401 (Message ''Invalid credentials''), run ?ops ([?bob] @ [u]))"
    by blast
  from u(1) reg have "u = document_of jane" by (simp add: reply_def)
  with u(2,3) w run
  have "login [?bob, document_of jane, ?carol] jane_login =
      (reply 200 (Document (document_of jane)), [?bob, document_of jane, ?carol])"
    "login [?bob, document_of jane, ?carol] jane_wrong =
      (reply 401 (Message ''Invalid credentials''), [?bob, document_of jane, ?carol])"
    by simp_all
  with h w reg run show ?thesis by blast
qed

text \<open>
  C2. Registration checks first name, last name, email, phone, then username and
  password, each for presence and then against its pattern. Whatever check fails first
  decides the response: 400 with that check's message, the collection untouched, the
  checks after it without influence. The messages are pairwise different. When no check
  fails the request goes on to the collection. The four patterns accept: letters only;
  letters, then any number of groups of an apostrophe or hyphen and letters; a local
  part, \<open>@\<close>, one label, a dot and two to six word characters; exactly ten digits.
\<close>

theorem register_first_failure:
  "(first_failure b = Some m \<longrightarrow> register s b = (reply 400 (Message m), s)) \<and>
   (first_failure b = None \<longrightarrow>
      register s b = (reply 201 (Document (document_of b)), s @ [document_of b]) \<or>
      register s b = (reply 400 (Message ''Username already taken''), s)) \<and>
   distinct (map snd validation_checks) \<and>
   test fnameRegex (Some x) = (x \<noteq> [] \<and> list_all letter x) \<and>
   test lnameRegex (Some x) =
     (\<exists>first more. x = first @ concat more \<and> first \<noteq> [] \<and> list_all letter first \<and>
        (\<forall>part \<in> set more. \<exists>j name. part = j # name \<and> name_joiner j \<and> name \<noteq> [] \<and>
           list_all letter name)) \<and>
   test emailRegex (Some x) =
     (\<exists>l d t. x = l @ ''@'' @ d @ ''.'' @ t \<and> l \<noteq> [] \<and> list_all local_char l \<and>
        d \<noteq> [] \<and> list_all label_char d \<and> 2 \<le> length t \<and> length t \<le> 6 \<and> list_all word_char t) \<and>
   test phoneNumberRegex (Some x) = (length x = 10 \<and> list_all digit x)"
proof (intro conjI impI)
  show "register s b = (reply 400 (Message m), s)" if "first_failure b = Some m"
    using that by (rule register_invalid)
  show "register s b = (reply 201 (Document (document_of b)), s @ [document_of b]) \<or>
      register s b = (reply 400 (Message ''Username already taken''), s)"
    if "first_failure b = None"
    using that register_after_validation by blast
qed (rule distinct_messages test_fnameRegex test_lnameRegex test_emailRegex test_phoneNumberRegex)+

theorem register_first_failure_witness:
  "first_failure (jane_with ''lastName'' ''Smith2'') = Some ''Last Name should contain only letters'' \<and>
   register [] (jane_with ''lastName'' ''Smith2'') =
     (reply 400 (Message ''Last Name should contain only letters''), []) \<and>
   first_failure jane = None \<and>
   register [] jane = (reply 201 (Document (document_of jane)), [document_of jane]) \<and>
   test lnameRegex (Some ''O'Brien-Smith'')"
proof -
  have n: "first_failure jane = None"
    by (simp add: first_failure_None jane_passes)
  have ne: "register [] jane \<noteq> (reply 400 (Message ''Username already taken''), [])"
    by (simp add: register_first jane_passes)
  from register_first_failure [of "jane_with ''lastName'' ''Smith2''"
      "''Last Name should contain only letters''" "[]" "''O'Brien-Smith''"]
    register_first_failure [of jane "[]" "[]" "''O'Brien-Smith''"]
    n ne jane_with_rejected(2) examples_lastName(1)
  show ?thesis by simp
qed

text \<open>
  C3. Login answers 400 exactly when the username or the password is missing (not sent,
  or sent empty); otherwise 404 exactly when no document carries the username; otherwise
  401 exactly when the password of the document found differs from the one supplied,
  compared as strings, character by character; otherwise 200. On a collection that
  answers the lookup no other status occurs.
\<close>

theorem login_status:
  "(status (fst (login s b)) = 400 \<longleftrightarrow> missing (b ''username'') \<or> missing (b ''password'')) \<and>
   (status (fst (login s b)) = 404 \<longleftrightarrow>
      \<not> missing (b ''username'') \<and> \<not> missing (b ''password'') \<and>
      (\<forall>u \<in> set s. username u \<noteq> str (b ''username''))) \<and>
   (status (fst (login s b)) = 401 \<longleftrightarrow>
      \<not> missing (b ''username'') \<and> \<not> missing (b ''password'') \<and>
      (\<exists>u. find (\<lambda>u. username u = str (b ''username'')) s = Some u \<and>
           password u \<noteq> str (b ''password''))) \<and>
   (status (fst (login s b)) = 200 \<longleftrightarrow>
      \<not> missing (b ''username'') \<and> \<not> missing (b ''password'') \<and>
      (\<exists>u. find (\<lambda>u. username u = str (b ''username'')) s = Some u \<and>
           password u = str (b ''password''))) \<and>
   status (fst (login s b)) \<in> {400, 404, 401, 200}"
proof (cases "missing (b ''username'') \<or> missing (b ''password'')")
  case True
  then have "login s b = (reply 400 (Message ''Username and password are required''), s)"
    by (auto simp: login_def missing_iff)
  with True show ?thesis by (auto simp: reply_def)
next
  case False
  then have t: "truthy (b ''username'')" "truthy (b ''password'')"
    by (simp_all add: missing_iff)
  show ?thesis
  proof (cases "find (\<lambda>u. username u = str (b ''username'')) s")
    case None
    then have "login s b = (reply 404 (Message ''User not found''), s)"
      using t by (simp add: login_def findOne_def)
    moreover from None have "\<forall>u \<in> set s. username u \<noteq> str (b ''username'')"
      by (simp add: find_None_iff)
    ultimately show ?thesis using False None by (simp add: reply_def)
  next
    case (Some u)
    then have "\<not> (\<forall>u \<in> set s. username u \<noteq> str (b ''username''))"
      by (auto simp: find_Some_iff)
    moreover have "login s b =
        (if password u = str (b ''password'') then (reply 200 (Document u), s)
         else (reply 401 (Message ''Invalid credentials''), s))"
      using t Some by (simp add: login_def findOne_def)
    ultimately show ?thesis using False Some by (simp add: reply_def)
  qed
qed

theorem login_status_witness:
  "status (fst (login [] Map.empty)) = 400 \<and>
   status (fst (login [] jane_login)) = 404 \<and>
   status (fst (login [document_of jane] (jane_login(''username'' \<mapsto> ''nobody'')))) = 404 \<and>
   status (fst (login [document_of jane] jane_wrong)) = 401 \<and>
   status (fst (login [document_of jane] (jane_login(''password'' \<mapsto> ''PW1'')))) = 401 \<and>
   status (fst (login [document_of jane] jane_login)) = 200"
proof -
  have 1: "status (fst (login [] Map.empty)) = 400"
    using login_status [of "[]" Map.empty] by (simp add: missing_def)
  have 2: "status (fst (login [] jane_login)) = 404"
    using login_status [of "[]" jane_login] by (simp add: missing_def jane_login_def)
  have 6: "status (fst (login [document_of jane] (jane_login(''username'' \<mapsto> ''nobody'')))) = 404"
    using login_status [of "[document_of jane]" "jane_login(''username'' \<mapsto> ''nobody'')"]
    by (simp add: missing_def jane_login_def jane_document str_def)
  have 3: "status (fst (login [document_of jane] jane_wrong)) = 401"
    using login_status [of "[document_of jane]" jane_wrong]
    by (simp add: missing_def jane_wrong_def jane_document str_def)
  have 4: "status (fst (login [document_of jane] (jane_login(''password'' \<mapsto> ''PW1'')))) = 401"
    using login_status [of "[document_of jane]" "jane_login(''password'' \<mapsto> ''PW1'')"]
    by (simp add: missing_def jane_login_def jane_document str_def)
  have 5: "status (fst (login [document_of jane] jane_login)) = 200"
    using login_status [of "[document_of jane]" jane_login]
    by (simp add: missing_def jane_login_def jane_document str_def)
  from 1 2 3 4 5 6 show ?thesis by blast
qed

text \<open>
  C4. For a register request that passes validation: when a document of the collection
  carries the username the answer is 400 ``Username already taken'' and nothing is
  inserted; otherwise the document is inserted and returned with 201. A second
  registration under the same username is answered 400.
\<close>

theorem register_duplicate_or_insert:
  assumes "passes_validation b"
  shows "((\<exists>u \<in> set s. username u = str (b ''username'')) \<longrightarrow>
            register s b = (reply 400 (Message ''Username already taken''), s)) \<and>
         ((\<forall>u \<in> set s. username u \<noteq> str (b ''username'')) \<longrightarrow>
            register s b = (reply 201 (Document (document_of b)), s @ [document_of b])) \<and>
         (\<forall>c. passes_validation c \<and> c ''username'' = b ''username'' \<longrightarrow>
            register (snd (register s b)) c =
              (reply 400 (Message ''Username already taken''), snd (register s b)))"
proof -
  have taken: "register s' c = (reply 400 (Message ''Username already taken''), s')"
    if "passes_validation c" and "\<exists>u \<in> set s'. username u = str (c ''username'')" for s' c
  proof -
    from that(2) have "find (\<lambda>u. username u = str (c ''username'')) s' \<noteq> None"
      by (auto simp: find_None_iff)
    with that(1) show ?thesis by (auto simp: register_valid)
  qed
  have fresh: "register s b = (reply 201 (Document (document_of b)), s @ [document_of b])"
    if "\<forall>u \<in> set s. username u \<noteq> str (b ''username'')"
  proof -
    from that have "find (\<lambda>u. username u = str (b ''username'')) s = None"
      by (simp add: find_None_iff)
    with assms show ?thesis by (simp add: register_valid)
  qed
  have present: "\<exists>u \<in> set (snd (register s b)). username u = str (b ''username'')"
  proof (cases "\<exists>u \<in> set s. username u = str (b ''username'')")
    case True
    with taken [OF assms] show ?thesis by simp
  next
    case False
    then have "snd (register s b) = s @ [document_of b]" by (simp add: fresh)
    then show ?thesis by (simp add: document_of_def)
  qed
  have again: "register (snd (register s b)) c =
      (reply 400 (Message ''Username already taken''), snd (register s b))"
    if "passes_validation c \<and> c ''username'' = b ''username''" for c
    using that present by (intro taken) simp_all
  from taken [OF assms] fresh again show ?thesis by blast
qed

theorem register_duplicate_or_insert_witness:
  "passes_validation jane \<and>
   register [] jane = (reply 201 (Document (document_of jane)), [document_of jane]) \<and>
   register [document_of jane] jane =
     (reply 400 (Message ''Username already taken''), [document_of jane]) \<and>
   register (snd (register [] jane)) jane =
     (reply 400 (Message ''Username already taken''), snd (register [] jane))"
  using register_duplicate_or_insert [OF jane_passes, of "[]"]
    register_duplicate_or_insert [OF jane_passes, of "[document_of jane]"]
  by (simp add: jane_passes document_of_def)

text \<open>
  C5. Starting from the empty collection, after any sequence of login and register
  requests handled one after the other no two documents carry the same username; and each
  single request keeps a collection with pairwise different usernames that way.
\<close>

theorem username_unique:
  "distinct (map username (run ops [])) \<and>
   (distinct (map username s) \<longrightarrow> distinct (map username (perform op s)))"
proof
  have step: "distinct (map username (perform op' s'))" if "distinct (map username s')" for op' s'
  proof -
    from perform_store [of op' s'] consider "perform op' s' = s'"
      | u where "perform op' s' = s' @ [u]" "username u \<notin> username ` set s'"
      by blast
    then show ?thesis using that by cases simp_all
  qed
  have "distinct (map username (fold perform ops s'))" if "distinct (map username s')" for s'
    using that by (induction ops arbitrary: s') (simp_all add: step)
  then show "distinct (map username (run ops []))"
    by (simp add: run_def)
  show "distinct (map username s) \<longrightarrow> distinct (map username (perform op s))"
    using step by blast
qed

theorem username_unique_witness:
  "distinct (map username [document_of jane]) \<and>
   perform (Register jane) [document_of jane] = [document_of jane] \<and>
   distinct (map username (perform (Register jane) [document_of jane])) \<and>
   run [Register jane, Login jane_login, Register jane] [] = [document_of jane]"
proof -
  have r1: "register [] jane = (reply 201 (Document (document_of jane)), [document_of jane])"
    using jane_passes by (simp add: register_valid)
  have r2: "register [document_of jane] jane =
      (reply 400 (Message ''Username already taken''), [document_of jane])"
    using jane_passes by (simp add: register_valid document_of_def)
  have "run [Register jane, Login jane_login, Register jane] [] = [document_of jane]"
    by (simp add: run_def r1 r2 login_store)
  then show ?thesis
    using username_unique [of "[Register jane, Login jane_login, Register jane]" "[document_of jane]"
        "Register jane"]
    by (simp add: r2)
qed

text \<open>
  C6. A first name with a digit or a space in it is answered with the first-name format
  message, whatever else the request carries. The last-name pattern accepts
  \<open>O'Brien-Smith\<close> and rejects \<open>Smith2\<close>; the email pattern accepts \<open>a@b.co\<close> and
  rejects \<open>a@b\<close>; the phone pattern accepts \<open>1234567890\<close> and rejects \<open>12345\<close>.
  Put into the scenario's registration in place of the field, each rejected value is
  answered with its field's format message and each accepted value is registered.
\<close>

theorem validation_examples:
  "(b ''firstName'' = Some x \<and> (\<exists>c \<in> set x. digit c \<or> c = CHR '' '') \<longrightarrow>
      register s b = (reply 400 (Message ''First Name should contain only letters''), s)) \<and>
   test lnameRegex (Some ''O'Brien-Smith'') \<and> \<not> test lnameRegex (Some ''Smith2'') \<and>
   test emailRegex (Some ''a@b.co'') \<and> \<not> test emailRegex (Some ''a@b'') \<and>
   test phoneNumberRegex (Some ''1234567890'') \<and> \<not> test phoneNumberRegex (Some ''12345'') \<and>
   register s (jane_with ''lastName'' ''Smith2'') =
     (reply 400 (Message ''Last Name should contain only letters''), s) \<and>
   register s (jane_with ''email'' ''a@b'') = (reply 400 (Message ''Email format is invalid''), s) \<and>
   register s (jane_with ''phone'' ''12345'') =
     (reply 400 (Message ''Phone Number must be 10 digits''), s) \<and>
   status (fst (register [] (jane_with ''lastName'' ''O'Brien-Smith''))) = 201 \<and>
   status (fst (register [] (jane_with ''email'' ''a@b.co''))) = 201 \<and>
   status (fst (register [] (jane_with ''phone'' ''1234567890''))) = 201"
proof (intro conjI)
  show "b ''firstName'' = Some x \<and> (\<exists>c \<in> set x. digit c \<or> c = CHR '' '') \<longrightarrow>
      register s b = (reply 400 (Message ''First Name should contain only letters''), s)"
    by (rule register_digit_or_space)
qed (simp_all add: examples_lastName examples_email examples_phone
    register_invalid [OF jane_with_rejected(2)] register_invalid [OF jane_with_rejected(3)]
    register_invalid [OF jane_with_rejected(5)] register_first jane_with_accepted reply_def)

theorem validation_examples_witness:
  "jane_with ''firstName'' ''J4ne'' ''firstName'' = Some ''J4ne'' \<and>
   (\<exists>c \<in> set ''J4ne''. digit c \<or> c = CHR '' '') \<and>
   register [] (jane_with ''firstName'' ''J4ne'') =
     (reply 400 (Message ''First Name should contain only letters''), []) \<and>
   jane_with ''firstName'' ''Mary Ann'' ''firstName'' = Some ''Mary Ann'' \<and>
   (\<exists>c \<in> set ''Mary Ann''. digit c \<or> c = CHR '' '') \<and>
   register [] (jane_with ''firstName'' ''Mary Ann'') =
     (reply 400 (Message ''First Name should contain only letters''), [])"
proof -
  have 1: "jane_with ''firstName'' ''J4ne'' ''firstName'' = Some ''J4ne''"
    "jane_with ''firstName'' ''Mary Ann'' ''firstName'' = Some ''Mary Ann''"
    by (simp_all add: jane_with_def)
  have 2: "\<exists>c \<in> set ''J4ne''. digit c \<or> c = CHR '' ''"
    "\<exists>c \<in> set ''Mary Ann''. digit c \<or> c = CHR '' ''"
    by (simp_all add: digit_def in_range_def)
  from validation_examples [of "jane_with ''firstName'' ''J4ne''" "''J4ne''" "[]"]
    validation_examples [of "jane_with ''firstName'' ''Mary Ann''" "''Mary Ann''" "[]"] 1 2
  show ?thesis by blast
qed

text \<open>
  C7. Login leaves the collection as it found it, whatever it answers. A register call
  that answers anything but 201 leaves it unchanged too; a register call that changes it
  answers 201 and appends one document. Documents already stored stay as they are, in
  place, through any sequence of requests.
\<close>

theorem store_frame:
  "snd (login s b) = s \<and>
   (status (fst (register s c)) \<noteq> 201 \<longrightarrow> snd (register s c) = s) \<and>
   (snd (register s c) \<noteq> s \<longrightarrow>
      status (fst (register s c)) = 201 \<and> (\<exists>u. snd (register s c) = s @ [u])) \<and>
   take (length s) (run ops s) = s"
proof (intro conjI impI)
  show "snd (login s b) = s"
    by (rule login_store)
  show "take (length s) (run ops s) = s"
    by (rule run_extends)
  from register_store [of s c] consider
      (same) "snd (register s c) = s" "fst (register s c) \<noteq> reply 201 (Document (document_of c))"
    | (more) "snd (register s c) = s @ [document_of c]"
        "fst (register s c) = reply 201 (Document (document_of c))"
    by blast
  note outcome = this
  show "snd (register s c) = s" if "status (fst (register s c)) \<noteq> 201"
    using outcome that by cases (simp_all add: reply_def)
  show "status (fst (register s c)) = 201" if "snd (register s c) \<noteq> s"
    using outcome that by cases (simp_all add: reply_def)
  show "\<exists>u. snd (register s c) = s @ [u]" if "snd (register s c) \<noteq> s"
    using outcome that by cases simp_all
qed

theorem store_frame_witness:
  "status (fst (register [document_of jane] jane)) \<noteq> 201 \<and>
   snd (register [document_of jane] jane) = [document_of jane] \<and>
   snd (register [] jane) \<noteq> [] \<and> status (fst (register [] jane)) = 201 \<and>
   status (fst (register [document_of jane] Map.empty)) \<noteq> 201 \<and>
   snd (register [document_of jane] Map.empty) = [document_of jane]"
proof -
  have r1: "register [] jane = (reply 201 (Document (document_of jane)), [document_of jane])"
    using jane_passes by (simp add: register_valid)
  have r2: "register [document_of jane] jane =
      (reply 400 (Message ''Username already taken''), [document_of jane])"
    using jane_passes by (simp add: register_valid document_of_def)
  have r3: "status (fst (register [document_of jane] Map.empty)) \<noteq> 201"
    by (simp add: register_def truthy_def reply_def)
  show ?thesis
    using store_frame [of "[document_of jane]" jane_login jane "[]"]
      store_frame [of "[]" jane_login jane "[]"]
      store_frame [of "[document_of jane]" jane_login Map.empty "[]"] r3
    by (simp add: r1 r2 reply_def)
qed

text \<open>
  C8. A login answered 200 carries in its body the document found in the collection,
  whole: the document is one of the stored ones, the first under the requested username,
  and its password field is the stored password, equal to the one supplied.
\<close>

theorem login_returns_stored_record:
  assumes "status (fst (login s b)) = 200"
  shows "\<exists>u. login s b = (reply 200 (Document u), s) \<and> u \<in> set s \<and>
           findOne (str (b ''username'')) s = Inr (Some u) \<and>
           b ''username'' = Some (username u) \<and> b ''password'' = Some (password u)"
proof -
  have t: "truthy (b ''username'')" "truthy (b ''password'')"
    using assms by (auto simp: login_def reply_def split: if_splits)
  with assms obtain u where u: "find (\<lambda>u. username u = str (b ''username'')) s = Some u"
    by (cases "find (\<lambda>u. username u = str (b ''username'')) s")
      (auto simp: login_def findOne_def reply_def)
  with assms t have p: "password u = str (b ''password'')"
    by (auto simp: login_def findOne_def reply_def split: if_splits)
  from u have "u \<in> set s" "username u = str (b ''username'')"
    by (auto simp: find_Some_iff)
  moreover from u p t have "login s b = (reply 200 (Document u), s)"
    by (simp add: login_def findOne_def)
  ultimately show ?thesis
    using u p truthy_Some [OF t(1)] truthy_Some [OF t(2)] by (auto simp: findOne_def)
qed

theorem login_returns_stored_record_witness:
  "status (fst (login [document_of jane] jane_login)) = 200 \<and>
   login [document_of jane] jane_login = (reply 200 (Document (document_of jane)), [document_of jane]) \<and>
   password (document_of jane) = ''pw1''"
proof -
  have h: "status (fst (login [document_of jane] jane_login)) = 200"
    by (simp add: login_def findOne_def jane_document jane_login_def truthy_def str_def reply_def)
  from login_returns_stored_record [OF h] h show ?thesis
    by (auto simp: jane_document)
qed

text \<open>
  C9. A field sent as the empty string is handled as a field that was not sent: both
  handlers answer a body with \<open>k\<close> set to the empty string exactly as they answer the
  body with \<open>k\<close> removed, for every field name \<open>k\<close>. Login with an empty username or
  password answers 400 with the missing-credentials message for every collection, so
  without regard to what is stored. Register with an empty field never answers with that
  field's format message; it answers with the field's ``required'' message as soon as
  the checks that come before it pass (for the first name, always).
\<close>

theorem empty_string_is_missing:
  "login s (b(k \<mapsto> [])) = login s (b(k := None)) \<and>
   register s (b(k \<mapsto> [])) = register s (b(k := None)) \<and>
   (b ''username'' = Some [] \<or> b ''password'' = Some [] \<longrightarrow>
      login s b = (reply 400 (Message ''Username and password are required''), s)) \<and>
   (b ''firstName'' = Some [] \<longrightarrow>
      register s b = (reply 400 (Message ''First name is required''), s)) \<and>
   (b ''lastName'' = Some [] \<longrightarrow>
      json (fst (register s b)) \<noteq> Message ''Last Name should contain only letters'' \<and>
      (truthy (b ''firstName'') \<and> test fnameRegex (b ''firstName'') \<longrightarrow>
         register s b = (reply 400 (Message ''Last Name is required''), s))) \<and>
   (b ''email'' = Some [] \<longrightarrow>
      json (fst (register s b)) \<noteq> Message ''Email format is invalid'' \<and>
      (truthy (b ''firstName'') \<and> test fnameRegex (b ''firstName'') \<and>
       truthy (b ''lastName'') \<and> test lnameRegex (b ''lastName'') \<longrightarrow>
         register s b = (reply 400 (Message ''Email is required''), s))) \<and>
   (b ''phone'' = Some [] \<longrightarrow>
      json (fst (register s b)) \<noteq> Message ''Phone Number must be 10 digits'' \<and>
      (truthy (b ''firstName'') \<and> test fnameRegex (b ''firstName'') \<and>
       truthy (b ''lastName'') \<and> test lnameRegex (b ''lastName'') \<and>
       truthy (b ''email'') \<and> test emailRegex (b ''email'') \<longrightarrow>
         register s b = (reply 400 (Message ''Phone Number is required''), s))) \<and>
   (b ''username'' = Some [] \<or> b ''password'' = Some [] \<longrightarrow>
      (truthy (b ''firstName'') \<and> test fnameRegex (b ''firstName'') \<and>
       truthy (b ''lastName'') \<and> test lnameRegex (b ''lastName'') \<and>
       truthy (b ''email'') \<and> test emailRegex (b ''email'') \<and>
       truthy (b ''phone'') \<and> test phoneNumberRegex (b ''phone'') \<longrightarrow>
         register s b = (reply 400 (Message ''Username and password are required''), s)))"
proof (intro conjI)
  show "login s (b(k \<mapsto> [])) = login s (b(k := None))"
    by (rule login_cong) (rule empty_or_absent)+
  show "register s (b(k \<mapsto> [])) = register s (b(k := None))"
    by (rule register_cong) (rule empty_or_absent)+
qed (rule login_empty_field register_empty_firstName register_empty_lastName
    register_empty_email register_empty_phone register_empty_credentials)+

theorem empty_string_is_missing_witness:
  "jane_with ''email'' [] ''email'' = Some [] \<and>
   truthy (jane_with ''email'' [] ''firstName'') \<and>
   test fnameRegex (jane_with ''email'' [] ''firstName'') \<and>
   truthy (jane_with ''email'' [] ''lastName'') \<and>
   test lnameRegex (jane_with ''email'' [] ''lastName'') \<and>
   register [] (jane_with ''email'' []) = (reply 400 (Message ''Email is required''), []) \<and>
   register [] (jane(''email'' := None)) = (reply 400 (Message ''Email is required''), []) \<and>
   login [document_of jane] (jane_login(''password'' \<mapsto> [])) =
     (reply 400 (Message ''Username and password are required''), [document_of jane])"
proof -
  have e: "jane_with ''email'' [] ''email'' = Some []"
    by (simp add: jane_with_def)
  have p: "truthy (jane_with ''email'' [] ''firstName'')"
    "test fnameRegex (jane_with ''email'' [] ''firstName'')"
    "truthy (jane_with ''email'' [] ''lastName'')"
    "test lnameRegex (jane_with ''email'' [] ''lastName'')"
    by code_simp+
  have w: "(jane_login(''password'' \<mapsto> [])) ''password'' = Some []"
    by simp
  from empty_string_is_missing [of "[]" "jane_with ''email'' []" "''email''"] e p
  have 1: "register [] (jane_with ''email'' []) = (reply 400 (Message ''Email is required''), [])"
    by blast
  from empty_string_is_missing [of "[]" jane "''email''"] 1
  have 2: "register [] (jane(''email'' := None)) = (reply 400 (Message ''Email is required''), [])"
    by (simp add: jane_with_def)
  from empty_string_is_missing [of "[document_of jane]" "jane_login(''password'' \<mapsto> [])" "''email''"] w
  have 3: "login [document_of jane] (jane_login(''password'' \<mapsto> [])) =
     (reply 400 (Message ''Username and password are required''), [document_of jane])"
    by blast
  from e p 1 2 3 show ?thesis by blast
qed

text \<open>
  C10. The email pattern accepts exactly the strings made of a local part, \<open>@\<close>, one
  label without a dot, one dot, and two to six word characters, again without a dot: the
  part after \<open>@\<close> has exactly one dot. So \<open>a@mail.example.com\<close> is rejected, and a
  request carrying it with valid names is answered 400 with the email format message,
  while \<open>a@example.com\<close> is accepted.
\<close>

theorem email_single_label:
  "test emailRegex (Some x) =
     (\<exists>l d t. x = l @ ''@'' @ d @ ''.'' @ t \<and> l \<noteq> [] \<and> list_all local_char l \<and>
        d \<noteq> [] \<and> list_all label_char d \<and> 2 \<le> length t \<and> length t \<le> 6 \<and>
        list_all word_char t \<and> CHR ''.'' \<notin> set (d @ t) \<and> CHR ''@'' \<notin> set (l @ d @ t)) \<and>
   \<not> test emailRegex (Some ''a@mail.example.com'') \<and>
   test emailRegex (Some ''a@example.com'') \<and>
   (truthy (b ''firstName'') \<and> test fnameRegex (b ''firstName'') \<and>
    truthy (b ''lastName'') \<and> test lnameRegex (b ''lastName'') \<and>
    b ''email'' = Some ''a@mail.example.com'' \<longrightarrow>
      register s b = (reply 400 (Message ''Email format is invalid''), s)) \<and>
   status (fst (register [] (jane_with ''email'' ''a@example.com''))) = 201"
proof (intro conjI impI)
  show "register s b = (reply 400 (Message ''Email format is invalid''), s)"
    if h: "truthy (b ''firstName'') \<and> test fnameRegex (b ''firstName'') \<and>
      truthy (b ''lastName'') \<and> test lnameRegex (b ''lastName'') \<and>
      b ''email'' = Some ''a@mail.example.com''"
  proof -
    from h have "truthy (b ''email'')" "\<not> test emailRegex (b ''email'')"
      by (simp_all add: truthy_def examples_email)
    with h show ?thesis by (intro register_bad_email) simp_all
  qed
qed (rule test_emailRegex_one_label examples_email,
    simp_all add: examples_email register_first jane_with_accepted reply_def)

theorem email_single_label_witness:
  "truthy (jane_with ''email'' ''a@mail.example.com'' ''firstName'') \<and>
   test fnameRegex (jane_with ''email'' ''a@mail.example.com'' ''firstName'') \<and>
   truthy (jane_with ''email'' ''a@mail.example.com'' ''lastName'') \<and>
   test lnameRegex (jane_with ''email'' ''a@mail.example.com'' ''lastName'') \<and>
   jane_with ''email'' ''a@mail.example.com'' ''email'' = Some ''a@mail.example.com'' \<and>
   register [] (jane_with ''email'' ''a@mail.example.com'') =
     (reply 400 (Message ''Email format is invalid''), [])"
proof -
  have p: "truthy (jane_with ''email'' ''a@mail.example.com'' ''firstName'')"
    "test fnameRegex (jane_with ''email'' ''a@mail.example.com'' ''firstName'')"
    "truthy (jane_with ''email'' ''a@mail.example.com'' ''lastName'')"
    "test lnameRegex (jane_with ''email'' ''a@mail.example.com'' ''lastName'')"
    by code_simp+
  have e: "jane_with ''email'' ''a@mail.example.com'' ''email'' = Some ''a@mail.example.com''"
    by (simp add: jane_with_def)
  from email_single_label [of "''a@mail.example.com''" "jane_with ''email'' ''a@mail.example.com''" "[]"]
    p e
  show ?thesis by blast
qed

end
